theory Spec2Isabelle
  imports Complex_Main
begin

section \<open>Values, errors and the remote host\<close>

text \<open>
  The Python values that travel between the controller and the remote host. A finite
  float is written as the rational it denotes. \<open>py_eq\<close> is Python's \<open>==\<close> on these
  values: \<open>bool\<close> is an \<open>int\<close>, numbers compare by value across \<open>bool\<close>, \<open>int\<close>
  and \<open>float\<close>, \<open>str\<close> and \<open>bytes\<close> are never equal to each other, and lists compare
  element by element.
\<close>

datatype pyval =
    PNone
  | PBool bool
  | PInt int
  | PFloat rat
  | PStr string
  | PBytes string
  | PList "pyval list"

fun py_num :: "pyval \<Rightarrow> rat option" where
  "py_num (PBool b) = Some (if b then 1 else 0)"
| "py_num (PInt i) = Some (of_int i)"
| "py_num (PFloat q) = Some q"
| "py_num _ = None"

fun py_eq :: "pyval \<Rightarrow> pyval \<Rightarrow> bool" where
  "py_eq PNone b = (b = PNone)"
| "py_eq (PStr s) b = (b = PStr s)"
| "py_eq (PBytes s) b = (b = PBytes s)"
| "py_eq (PList xs) b = (case b of PList ys \<Rightarrow> list_all2 py_eq xs ys | _ \<Rightarrow> False)"
| "py_eq a b = (case (py_num a, py_num b) of (Some x, Some y) \<Rightarrow> x = y | _ \<Rightarrow> False)"

definition py_ne :: "pyval \<Rightarrow> pyval \<Rightarrow> bool" where
  "py_ne a b = (\<not> py_eq a b)"

text \<open>
  Every exception the modelled code can raise or let through. \<open>Exception\<close> carries the
  message of a bare \<open>raise Exception(...)\<close>; \<open>TransportError\<close> and
  \<open>DecodeShapeError\<close> come from the transport and the result decoder.
\<close>

datatype error =
    TransportError string
  | DecodeShapeError
  | KeyError string
  | IndexError
  | TypeError
  | Exception string

record request =
  req_code :: string
  req_params :: "pyval list"

text \<open>
  The world is the log of remote requests issued so far, oldest first. An inbound item of
  the event capture is either an event tuple or an exception raised by the capture.
\<close>

type_synonym world = "request list"

datatype ev_item = Event "pyval list" | Raises error

text \<open>
  The collaborators outside this module: \<open>host\<close> answers a request, given the requests
  it has already seen, with a raw value or a transport failure; \<open>captureEvent\<close> gives,
  for an event category, the items the capture produces until it finishes.
\<close>

record env =
  host :: "request list \<Rightarrow> request \<Rightarrow> error + pyval"
  captureEvent :: "string \<Rightarrow> ev_item list"

type_synonym 'a io = "world \<Rightarrow> (error + 'a) \<times> world"

definition return_io :: "'a \<Rightarrow> 'a io" where
  "return_io x w = (Inr x, w)"

definition bind_io :: "'a io \<Rightarrow> ('a \<Rightarrow> 'b io) \<Rightarrow> 'b io" where
  "bind_io m f w = (case m w of (Inl e, w') \<Rightarrow> (Inl e, w') | (Inr x, w') \<Rightarrow> f x w')"

definition lift_io :: "error + 'a \<Rightarrow> 'a io" where
  "lift_io r w = (r, w)"

text \<open>
  Modelled from the spec: \<open>eval_lua\<close> of module \<open>sess\<close> (not part of this file's
  source). One call is exactly one remote evaluation round-trip of a source expression
  with positional arguments; it returns the raw result or fails with the transport's
  error.
\<close>

definition eval_lua :: "env \<Rightarrow> string \<Rightarrow> pyval list \<Rightarrow> pyval io" where
  "eval_lua env code params w =
     (let rq = \<lparr>req_code = code, req_params = params\<rparr> in (host env w rq, w @ [rq]))"

text \<open>
  Modelled from the spec: \<open>ser.encode\<close> of module \<open>ser\<close>, which turns text into the
  byte string sent to the host; the bytes are written as the characters they encode.
\<close>

definition ser_encode :: "string \<Rightarrow> pyval" where
  "ser_encode s = PBytes s"

text \<open>
  Modelled from the spec: the typed extractions of the result decoder. Each one fails
  with a decode error when the raw value does not have the requested shape; \<open>PNone\<close>
  is the result that represents no value.
\<close>

fun take_bool :: "pyval \<Rightarrow> error + bool" where
  "take_bool (PBool b) = Inr b"
| "take_bool _ = Inl DecodeShapeError"

fun take_none :: "pyval \<Rightarrow> error + unit" where
  "take_none PNone = Inr ()"
| "take_none _ = Inl DecodeShapeError"

fun take_option_string :: "pyval \<Rightarrow> error + string option" where
  "take_option_string PNone = Inr None"
| "take_option_string (PStr s) = Inr (Some s)"
| "take_option_string _ = Inl DecodeShapeError"

section \<open>Proxies and the remote call primitive\<close>

datatype pclass =
    CCDrive | CCMonitor | CCComputer | CCTurtle | CCWirelessModem | CCWiredModem
  | CCPrinter | CCSpeaker | CCCommandBlock | CCWorkbench | CCInventory | CCWebDisplay
  | CCNBTObserver | CC3dProjector | CCManipulator
  | ThirdParty string

text \<open>An instance of a peripheral class: its class and the two fields set by \<open>__init__\<close>.\<close>

record peripheral =
  pclass :: pclass
  lua_method_expr :: string
  prepend_params :: "pyval list"

definition BasePeripheral_init :: "pclass \<Rightarrow> string \<Rightarrow> pyval list \<Rightarrow> peripheral" where
  "BasePeripheral_init cls expr prepend =
     \<lparr>pclass = cls, lua_method_expr = expr, prepend_params = prepend\<rparr>"

definition BasePeripheral_method :: "env \<Rightarrow> peripheral \<Rightarrow> string \<Rightarrow> pyval list \<Rightarrow> pyval io" where
  "BasePeripheral_method env self name params =
     (let code = ''return '' @ lua_method_expr self @ ''(...)''
      in eval_lua env code (prepend_params self @ [ser_encode name] @ params))"

definition method_request :: "peripheral \<Rightarrow> string \<Rightarrow> pyval list \<Rightarrow> request" where
  "method_request self name params =
     \<lparr>req_code = ''return '' @ lua_method_expr self @ ''(...)'',
      req_params = prepend_params self @ [ser_encode name] @ params\<rparr>"

subsection \<open>Modem operations\<close>

definition ModemMixin_isOpen :: "env \<Rightarrow> peripheral \<Rightarrow> int \<Rightarrow> bool io" where
  "ModemMixin_isOpen env self channel =
     bind_io (BasePeripheral_method env self ''isOpen'' [PInt channel])
       (\<lambda>r. lift_io (take_bool r))"

definition ModemMixin_open :: "env \<Rightarrow> peripheral \<Rightarrow> int \<Rightarrow> unit io" where
  "ModemMixin_open env self channel =
     bind_io (BasePeripheral_method env self ''open'' [PInt channel])
       (\<lambda>r. lift_io (take_none r))"

definition ModemMixin_close :: "env \<Rightarrow> peripheral \<Rightarrow> int \<Rightarrow> unit io" where
  "ModemMixin_close env self channel =
     bind_io (BasePeripheral_method env self ''close'' [PInt channel])
       (\<lambda>r. lift_io (take_none r))"

text \<open>Indexing a tuple with a literal index \<open>i \<ge> 0\<close>: out of range raises.\<close>

definition tuple_get :: "pyval list \<Rightarrow> nat \<Rightarrow> error + pyval" where
  "tuple_get xs i = (if i < length xs then Inr (xs ! i) else Inl IndexError)"

definition ModemMixin_side :: "peripheral \<Rightarrow> error + pyval" where
  "ModemMixin_side self = tuple_get (prepend_params self) 0"


subsection \<open>The subscription generator\<close>

record ModemMessage =
  reply_channel :: pyval
  content :: pyval
  distance :: pyval

text \<open>\<open>ModemMessage(*args)\<close>: the dataclass takes exactly three positional arguments.\<close>

fun ModemMessage_init :: "pyval list \<Rightarrow> error + ModemMessage" where
  "ModemMessage_init [r, c, d] = Inr \<lparr>reply_channel = r, content = c, distance = d\<rparr>"
| "ModemMessage_init _ = Inl TypeError"

text \<open>
  One run of the \<open>for\<close> loop inside the \<open>try\<close> block, from the items still to come,
  up to the point where control leaves the loop: at a \<open>yield\<close>, at the end of the capture,
  or with an exception. In \<open>evt[0] != self._side\<close> the left operand is evaluated first.
\<close>

datatype loop_exit = Yielded ModemMessage "ev_item list" | Exhausted | Raised error

fun receive_loop :: "peripheral \<Rightarrow> int \<Rightarrow> ev_item list \<Rightarrow> loop_exit" where
  "receive_loop self channel [] = Exhausted"
| "receive_loop self channel (Raises e # rest) = Raised e"
| "receive_loop self channel (Event evt # rest) =
     (case tuple_get evt 0 of
        Inl e \<Rightarrow> Raised e
      | Inr e0 \<Rightarrow>
          (case ModemMixin_side self of
             Inl e \<Rightarrow> Raised e
           | Inr side \<Rightarrow>
               if py_ne e0 side then receive_loop self channel rest
               else
                 (case tuple_get evt 1 of
                    Inl e \<Rightarrow> Raised e
                  | Inr e1 \<Rightarrow>
                      if py_ne e1 (PInt channel) then receive_loop self channel rest
                      else
                        (case ModemMessage_init (drop 2 evt) of
                           Inl e \<Rightarrow> Raised e
                         | Inr m \<Rightarrow> Yielded m rest))))"

text \<open>
  A generator object of \<open>receive\<close>: not yet started, suspended at the \<open>yield\<close> (inside
  the \<open>try\<close> block, with the items the capture has still to produce), or finished.
\<close>

datatype generator =
    Created peripheral int
  | Suspended peripheral int "ev_item list"
  | Done

text \<open>Calling the generator function builds the generator object; the body has not run.\<close>

definition ModemMixin_receive :: "peripheral \<Rightarrow> int \<Rightarrow> generator io" where
  "ModemMixin_receive self channel = return_io (Created self channel)"

text \<open>
  The \<open>finally\<close> block: \<open>self.close(channel)\<close> runs, then the pending outcome of the
  \<open>try\<close> block goes on, unless \<open>close\<close> itself raised.
\<close>

definition finally_close ::
  "env \<Rightarrow> peripheral \<Rightarrow> int \<Rightarrow> error + 'a \<Rightarrow> world \<Rightarrow> (error + 'a) \<times> generator \<times> world" where
  "finally_close env self channel pending w =
     (case ModemMixin_close env self channel w of
        (Inl e, w') \<Rightarrow> (Inl e, Done, w')
      | (Inr _, w') \<Rightarrow> (pending, Done, w'))"

definition receive_try ::
  "env \<Rightarrow> peripheral \<Rightarrow> int \<Rightarrow> ev_item list \<Rightarrow> world
     \<Rightarrow> (error + ModemMessage option) \<times> generator \<times> world" where
  "receive_try env self channel items w =
     (case receive_loop self channel items of
        Yielded m rest \<Rightarrow> (Inr (Some m), Suspended self channel rest, w)
      | Exhausted \<Rightarrow> finally_close env self channel (Inr None) w
      | Raised e \<Rightarrow> finally_close env self channel (Inl e) w)"

text \<open>
  \<open>next(g)\<close>: \<open>Inr (Some m)\<close> is a yielded message, \<open>Inr None\<close> is \<open>StopIteration\<close>.
  The first advance runs the body from its start.
\<close>

fun gen_next ::
  "env \<Rightarrow> generator \<Rightarrow> world \<Rightarrow> (error + ModemMessage option) \<times> generator \<times> world" where
  "gen_next env (Created self channel) w =
     (case ModemMixin_isOpen env self channel w of
        (Inl e, w1) \<Rightarrow> (Inl e, Done, w1)
      | (Inr True, w1) \<Rightarrow> (Inl (Exception ''Channel is busy''), Done, w1)
      | (Inr False, w1) \<Rightarrow>
          (case ModemMixin_open env self channel w1 of
             (Inl e, w2) \<Rightarrow> (Inl e, Done, w2)
           | (Inr _, w2) \<Rightarrow>
               receive_try env self channel (captureEvent env ''modem_message'') w2))"
| "gen_next env (Suspended self channel rest) w = receive_try env self channel rest w"
| "gen_next env Done w = (Inr None, Done, w)"

text \<open>
  \<open>g.throw(e)\<close> raises \<open>e\<close> at the point where the generator is suspended, and
  \<open>g.close()\<close> (also run when an abandoned generator is collected) raises
  \<open>GeneratorExit\<close> there; a generator that has not started or has finished runs no code.
\<close>

fun gen_throw ::
  "env \<Rightarrow> error \<Rightarrow> generator \<Rightarrow> world \<Rightarrow> (error + ModemMessage option) \<times> generator \<times> world" where
  "gen_throw env e (Created self channel) w = (Inl e, Done, w)"
| "gen_throw env e (Suspended self channel rest) w = finally_close env self channel (Inl e) w"
| "gen_throw env e Done w = (Inl e, Done, w)"

fun gen_close :: "env \<Rightarrow> generator \<Rightarrow> world \<Rightarrow> (error + unit) \<times> generator \<times> world" where
  "gen_close env (Created self channel) w = (Inr (), Done, w)"
| "gen_close env (Suspended self channel rest) w = finally_close env self channel (Inr ()) w"
| "gen_close env Done w = (Inr (), Done, w)"

text \<open>A consumer, as the sequence of things it does with the generator.\<close>

datatype action = Next | Throw error | Close

datatype outcome = Got ModemMessage | Stopped | Failed error | Closed

fun outcome_of :: "error + ModemMessage option \<Rightarrow> outcome" where
  "outcome_of (Inl e) = Failed e"
| "outcome_of (Inr None) = Stopped"
| "outcome_of (Inr (Some m)) = Got m"

text \<open>An outcome that hands a message to the consumer; every other outcome ends the run.\<close>

fun is_got :: "outcome \<Rightarrow> bool" where
  "is_got (Got m) = True"
| "is_got _ = False"

fun gen_step :: "env \<Rightarrow> action \<Rightarrow> generator \<Rightarrow> world \<Rightarrow> outcome \<times> generator \<times> world" where
  "gen_step env Next g w = (case gen_next env g w of (r, g', w') \<Rightarrow> (outcome_of r, g', w'))"
| "gen_step env (Throw e) g w =
     (case gen_throw env e g w of (r, g', w') \<Rightarrow> (outcome_of r, g', w'))"
| "gen_step env Close g w =
     (case gen_close env g w of
        (Inl e, g', w') \<Rightarrow> (Failed e, g', w')
      | (Inr _, g', w') \<Rightarrow> (Closed, g', w'))"

fun consume ::
  "env \<Rightarrow> action list \<Rightarrow> generator \<Rightarrow> world \<Rightarrow> outcome list \<times> generator \<times> world" where
  "consume env [] g w = ([], g, w)"
| "consume env (a # as) g w =
     (case gen_step env a g w of
        (out, g', w') \<Rightarrow> (case consume env as g' w' of (outs, g'', w'') \<Rightarrow> (out # outs, g'', w'')))"

fun messages :: "outcome list \<Rightarrow> ModemMessage list" where
  "messages [] = []"
| "messages (Got m # outs) = m # messages outs"
| "messages (_ # outs) = messages outs"

subsection \<open>The wired modem\<close>

definition CCWiredModem_getTypeRemote :: "env \<Rightarrow> peripheral \<Rightarrow> string \<Rightarrow> string option io" where
  "CCWiredModem_getTypeRemote env self peripheralName =
     bind_io (BasePeripheral_method env self ''getTypeRemote'' [ser_encode peripheralName])
       (\<lambda>r. lift_io (take_option_string r))"

section \<open>The registry and discovery\<close>

type_synonym type_map = "string \<rightharpoonup> pclass"

definition registerType :: "type_map \<Rightarrow> string \<Rightarrow> pclass \<Rightarrow> type_map" where
  "registerType tm ptype pcls = tm(ptype \<mapsto> pcls)"

text \<open>
  The expression \<open>TYPE_MAP[ptype](expr, *prepend)\<close>: a missing key raises \<open>KeyError\<close>,
  otherwise the class found is instantiated.
\<close>

definition resolve :: "type_map \<Rightarrow> string \<Rightarrow> string \<Rightarrow> pyval list \<Rightarrow> error + peripheral" where
  "resolve tm ptype expr prepend =
     (case tm ptype of
        None \<Rightarrow> Inl (KeyError ptype)
      | Some cls \<Rightarrow> Inr (BasePeripheral_init cls expr prepend))"

definition CCWiredModem_wrapRemote ::
  "env \<Rightarrow> type_map \<Rightarrow> peripheral \<Rightarrow> string \<Rightarrow> peripheral option io" where
  "CCWiredModem_wrapRemote env tm self peripheralName =
     bind_io (CCWiredModem_getTypeRemote env self peripheralName)
       (\<lambda>ptype. case ptype of
          None \<Rightarrow> return_io None
        | Some pt \<Rightarrow>
            bind_io
              (lift_io (resolve tm pt (lua_method_expr self)
                 (prepend_params self @ [PBytes ''callRemote'', ser_encode peripheralName])))
              (\<lambda>p. return_io (Some p)))"

text \<open>
  Modelled from the spec: \<open>method = eval_lua_method_factory('peripheral.')\<close>, whose
  factory lives in module \<open>sess\<close>: one remote request that invokes the named function of
  the \<open>peripheral\<close> accessor with the given arguments.
\<close>

definition peripheral_method :: "env \<Rightarrow> string \<Rightarrow> pyval list \<Rightarrow> pyval io" where
  "peripheral_method env name params =
     eval_lua env (''return '' @ ''peripheral.'' @ name @ ''(...)'') params"

definition getType :: "env \<Rightarrow> string \<Rightarrow> string option io" where
  "getType env side =
     bind_io (peripheral_method env ''getType'' [ser_encode side])
       (\<lambda>r. lift_io (take_option_string r))"

definition wrap :: "env \<Rightarrow> type_map \<Rightarrow> string \<Rightarrow> peripheral option io" where
  "wrap env tm side =
     bind_io (getType env side)
       (\<lambda>ptype. case ptype of
          None \<Rightarrow> return_io None
        | Some pt \<Rightarrow>
            (let m = ''peripheral.call''; side' = ser_encode side in
             if pt = ''modem'' then
               bind_io
                 (bind_io (peripheral_method env ''call'' [side', PBytes ''isWireless''])
                    (\<lambda>r. lift_io (take_bool r)))
                 (\<lambda>b. if b then return_io (Some (BasePeripheral_init CCWirelessModem m [side']))
                       else return_io (Some (BasePeripheral_init CCWiredModem m [side'])))
             else
               bind_io (lift_io (resolve tm pt m [side'])) (\<lambda>p. return_io (Some p))))"

text \<open>The registry as the module leaves it after loading: the registrations in order.\<close>

definition explicit_kinds :: "(string \<times> pclass) list" where
  "explicit_kinds =
     [(''drive'', CCDrive), (''monitor'', CCMonitor), (''computer'', CCComputer),
      (''turtle'', CCTurtle), (''printer'', CCPrinter), (''speaker'', CCSpeaker),
      (''command'', CCCommandBlock), (''workbench'', CCWorkbench),
      (''webdisplays'', CCWebDisplay), (''NBT_Observer'', CCNBTObserver),
      (''3d_projector'', CC3dProjector), (''manipulator'', CCManipulator)]"

definition inventory_kinds :: "string list" where
  "inventory_kinds =
     [''chest'', ''furnace'', ''barrel'', ''hopper'', ''dropper'', ''dispenser'',
      ''blast_furnace'', ''smoker'', ''shulker_box'', ''brewing_stand'']"

definition TYPE_MAP :: type_map where
  "TYPE_MAP =
     foldl (\<lambda>tm k. registerType tm (''minecraft:'' @ k) CCInventory)
       (foldl (\<lambda>tm (k, c). registerType tm k c) Map.empty explicit_kinds)
       inventory_kinds"

section \<open>The statements of the specification\<close>

text \<open>
  The filter and the message of the specification, in its own words: an event is kept when
  its side component equals the proxy's side and its channel component equals the
  subscribed channel; a kept event becomes the message of its reply channel, payload and
  distance components.
\<close>

definition spec_matches :: "peripheral \<Rightarrow> int \<Rightarrow> pyval list \<Rightarrow> bool" where
  "spec_matches self channel evt =
     (py_eq (evt ! 0) (prepend_params self ! 0) \<and> py_eq (evt ! 1) (PInt channel))"

definition spec_message :: "pyval list \<Rightarrow> ModemMessage" where
  "spec_message evt = \<lparr>reply_channel = evt ! 2, content = evt ! 3, distance = evt ! 4\<rparr>"

text \<open>The number of close-channel requests of a proxy for a channel in a log.\<close>

definition close_calls :: "peripheral \<Rightarrow> int \<Rightarrow> world \<Rightarrow> nat" where
  "close_calls self channel w =
     length (filter (\<lambda>rq. rq = method_request self ''close'' [PInt channel]) w)"

text \<open>The one extra request of discovery for the kind \<open>modem\<close>.\<close>

definition isWireless_request :: "string \<Rightarrow> request" where
  "isWireless_request side =
     \<lparr>req_code = ''return peripheral.call(...)'',
      req_params = [ser_encode side, PBytes ''isWireless'']\<rparr>"

definition getType_request :: "string \<Rightarrow> request" where
  "getType_request side =
     \<lparr>req_code = ''return peripheral.getType(...)'', req_params = [ser_encode side]\<rparr>"

section \<open>Sample hosts and devices\<close>

text \<open>
  A host that keeps track of the channels opened and closed on side \<open>left\<close>, and answers
  every other request with no value.
\<close>

definition sim_open :: "request list \<Rightarrow> int \<Rightarrow> bool" where
  "sim_open hist c =
     foldl (\<lambda>b rq.
        if req_params rq = [PBytes ''left'', PBytes ''open'', PInt c] then True
        else if req_params rq = [PBytes ''left'', PBytes ''close'', PInt c] then False
        else b) False hist"

definition sim_host :: "request list \<Rightarrow> request \<Rightarrow> error + pyval" where
  "sim_host hist rq =
     (case req_params rq of
        [s, PBytes n, PInt c] \<Rightarrow>
          if n = ''isOpen'' then Inr (PBool (sim_open hist c)) else Inr PNone
      | _ \<Rightarrow> Inr PNone)"

definition sample_events :: "pyval list list" where
  "sample_events =
     [[PBytes ''left'', PInt 5, PInt 7, PStr ''hello'', PInt 12],
      [PBytes ''right'', PInt 5, PInt 7, PStr ''elsewhere'', PInt 3],
      [PBytes ''left'', PInt 6, PInt 7, PStr ''other channel'', PInt 12],
      [PBytes ''left'', PInt 5, PInt 8, PList [PInt 1, PStr ''x''], PFloat 2]]"

definition sim_env :: env where
  "sim_env = \<lparr>host = sim_host, captureEvent = (\<lambda>cat. map Event sample_events)\<rparr>"

definition lossy_env :: env where
  "lossy_env =
     \<lparr>host = sim_host,
      captureEvent = (\<lambda>cat. [Event [PBytes ''left'', PInt 5, PInt 7, PStr ''hello'', PInt 12],
                              Raises (TransportError ''link down'')])\<rparr>"

text \<open>A host that reports every channel free and fails every open-channel request.\<close>

definition refusing_host :: "request list \<Rightarrow> request \<Rightarrow> error + pyval" where
  "refusing_host hist rq =
     (case req_params rq of
        [s, PBytes n, PInt c] \<Rightarrow>
          if n = ''isOpen'' then Inr (PBool False)
          else if n = ''open'' then Inl (TransportError ''host unreachable'')
          else Inr PNone
      | _ \<Rightarrow> Inr PNone)"

definition refusing_env :: env where
  "refusing_env = \<lparr>host = refusing_host, captureEvent = (\<lambda>cat. map Event sample_events)\<rparr>"

definition left_modem :: peripheral where
  "left_modem = BasePeripheral_init CCWirelessModem ''peripheral.call'' [ser_encode ''left'']"

text \<open>
  A host that reports kind \<open>k\<close> to every kind query and \<open>b\<close> to the wireless check.
\<close>

definition kind_host :: "pyval \<Rightarrow> pyval \<Rightarrow> request list \<Rightarrow> request \<Rightarrow> error + pyval" where
  "kind_host k b hist rq =
     (if PBytes ''isWireless'' \<in> set (req_params rq) then Inr b
      else if req_code rq = ''return peripheral.getType(...)''
              \<or> PBytes ''getTypeRemote'' \<in> set (req_params rq) then Inr k
      else Inr PNone)"

definition kind_env :: "pyval \<Rightarrow> pyval \<Rightarrow> env" where
  "kind_env k b = \<lparr>host = kind_host k b, captureEvent = (\<lambda>cat. [])\<rparr>"

definition back_modem :: peripheral where
  "back_modem = BasePeripheral_init CCWiredModem ''peripheral.call'' [ser_encode ''back'']"

section \<open>How the operations run\<close>

lemma method_run:
  "BasePeripheral_method env self name params w =
     (host env w (method_request self name params), w @ [method_request self name params])"
  by (simp add: BasePeripheral_method_def method_request_def eval_lua_def Let_def)

lemma bind_lift_run:
  "bind_io m (\<lambda>r. lift_io (f r)) w =
     ((case fst (m w) of Inl e \<Rightarrow> Inl e | Inr v \<Rightarrow> f v), snd (m w))"
  by (simp add: bind_io_def lift_io_def split: prod.splits sum.splits)

lemma isOpen_run:
  "ModemMixin_isOpen env self ch w =
     ((case host env w (method_request self ''isOpen'' [PInt ch]) of
         Inl e \<Rightarrow> Inl e | Inr v \<Rightarrow> take_bool v),
      w @ [method_request self ''isOpen'' [PInt ch]])"
  by (simp add: ModemMixin_isOpen_def bind_lift_run method_run)

lemma open_run:
  "ModemMixin_open env self ch w =
     ((case host env w (method_request self ''open'' [PInt ch]) of
         Inl e \<Rightarrow> Inl e | Inr v \<Rightarrow> take_none v),
      w @ [method_request self ''open'' [PInt ch]])"
  by (simp add: ModemMixin_open_def bind_lift_run method_run)

lemma close_run:
  "ModemMixin_close env self ch w =
     ((case host env w (method_request self ''close'' [PInt ch]) of
         Inl e \<Rightarrow> Inl e | Inr v \<Rightarrow> take_none v),
      w @ [method_request self ''close'' [PInt ch]])"
  by (simp add: ModemMixin_close_def bind_lift_run method_run)

lemma finally_close_log:
  "finally_close env self ch pending w = (r, g, w') \<Longrightarrow>
     g = Done \<and> w' = w @ [method_request self ''close'' [PInt ch]]"
  by (auto simp: finally_close_def close_run split: sum.splits)

lemma receive_try_log:
  "receive_try env self ch items w = (r, g, w') \<Longrightarrow>
     (\<exists>rest. g = Suspended self ch rest \<and> w' = w) \<or>
     (g = Done \<and> w' = w @ [method_request self ''close'' [PInt ch]])"
  by (auto simp: receive_try_def split: loop_exit.splits dest: finally_close_log)

lemma gen_step_done_eq: "snd (gen_step env a Done w) = (Done, w)"
  by (cases a) auto

lemma consume_done: "snd (consume env acts Done w) = (Done, w)"
proof (induction acts)
  case Nil
  show ?case by simp
next
  case (Cons a acts)
  obtain out g1 w1 where s: "gen_step env a Done w = (out, g1, w1)"
    by (cases "gen_step env a Done w")
  with gen_step_done_eq [of env a w] have "g1 = Done" "w1 = w" by simp_all
  with s Cons.IH show ?case by (auto split: prod.splits)
qed

lemma finally_close_outcome:
  "finally_close env self ch pending w = (r, g, w') \<Longrightarrow> r = pending \<or> (\<exists>e. r = Inl e)"
  by (auto simp: finally_close_def split: sum.splits prod.splits)

lemma receive_try_ends:
  assumes "receive_try env self ch items w = (r, g, w')"
  shows "(is_got (outcome_of r) \<and> (\<exists>rest. g = Suspended self ch rest) \<and> w' = w) \<or>
         (\<not> is_got (outcome_of r) \<and> g = Done \<and>
            w' = w @ [method_request self ''close'' [PInt ch]])"
proof (cases "receive_loop self ch items")
  case (Yielded m rest)
  with assms show ?thesis by (auto simp: receive_try_def)
next
  case Exhausted
  with assms have f: "finally_close env self ch (Inr None) w = (r, g, w')"
    by (simp add: receive_try_def)
  from finally_close_outcome [OF f] have "\<not> is_got (outcome_of r)" by auto
  with finally_close_log [OF f] show ?thesis by simp
next
  case (Raised e)
  with assms have f: "finally_close env self ch (Inl e) w = (r, g, w')"
    by (simp add: receive_try_def)
  from finally_close_outcome [OF f] have "\<not> is_got (outcome_of r)" by auto
  with finally_close_log [OF f] show ?thesis by simp
qed

lemma gen_step_suspended_ends:
  assumes "gen_step env a (Suspended self ch rest) w = (out, g, w')"
  shows "(is_got out \<and> (\<exists>rest'. g = Suspended self ch rest') \<and> w' = w) \<or>
         (\<not> is_got out \<and> g = Done \<and> w' = w @ [method_request self ''close'' [PInt ch]])"
proof (cases a)
  case Next
  with assms obtain r where t: "receive_try env self ch rest w = (r, g, w')"
    and o: "out = outcome_of r"
    by (auto split: prod.splits)
  from receive_try_ends [OF t] o show ?thesis by simp
next
  case (Throw e)
  with assms obtain r where f: "finally_close env self ch (Inl e) w = (r, g, w')"
    and o: "out = outcome_of r"
    by (auto split: prod.splits)
  from finally_close_outcome [OF f] o have "\<not> is_got out" by auto
  with finally_close_log [OF f] show ?thesis by simp
next
  case Close
  with assms obtain r where f: "finally_close env self ch (Inr ()) w = (r, g, w')"
    and o: "out = (case r of Inl e \<Rightarrow> Failed e | Inr u \<Rightarrow> Closed)"
    by (auto split: prod.splits sum.splits)
  from o have "\<not> is_got out" by (cases r) auto
  with finally_close_log [OF f] show ?thesis by simp
qed

lemma consume_suspended_ends:
  "consume env acts (Suspended self ch rest) w = (outs, g, w') \<Longrightarrow>
     (list_all is_got outs \<and> (\<exists>rest'. g = Suspended self ch rest') \<and> w' = w) \<or>
     (\<not> list_all is_got outs \<and> g = Done \<and>
        w' = w @ [method_request self ''close'' [PInt ch]])"
proof (induction acts arbitrary: outs w rest g w')
  case Nil
  then show ?case by auto
next
  case (Cons a acts)
  obtain out g1 w1 where s: "gen_step env a (Suspended self ch rest) w = (out, g1, w1)"
    by (cases "gen_step env a (Suspended self ch rest) w")
  obtain outs1 g2 w2 where c: "consume env acts g1 w1 = (outs1, g2, w2)"
    by (cases "consume env acts g1 w1")
  from Cons.prems s c have fin: "outs = out # outs1" "g = g2" "w' = w2" by auto
  from gen_step_suspended_ends [OF s] show ?case
  proof
    assume a1: "is_got out \<and> (\<exists>rest'. g1 = Suspended self ch rest') \<and> w1 = w"
    then obtain rest' where g1: "g1 = Suspended self ch rest'" and "w1 = w" by blast
    with c have "consume env acts (Suspended self ch rest') w = (outs1, g2, w2)" by simp
    from Cons.IH [OF this] a1 fin show ?thesis by auto
  next
    assume d: "\<not> is_got out \<and> g1 = Done \<and> w1 = w @ [method_request self ''close'' [PInt ch]]"
    with c consume_done [of env acts w1] have "g2 = Done" "w2 = w1" by simp_all
    with d fin show ?thesis by simp
  qed
qed

lemma consume_append:
  "consume env (as @ bs) g w =
     (case consume env as g w of (outs, g', w') \<Rightarrow>
        (case consume env bs g' w' of (outs', g'', w'') \<Rightarrow> (outs @ outs', g'', w'')))"
  by (induction as arbitrary: g w) (auto split: prod.splits)

lemma first_next:
  assumes nb: "ModemMixin_isOpen env self ch w0 = (Inr False, w1)"
      and op: "ModemMixin_open env self ch w1 = (Inr (), w2)"
  shows "gen_next env (Created self ch) w0 =
           receive_try env self ch (captureEvent env ''modem_message'') w2"
  using nb op by simp

lemma close_step:
  "(\<exists>rest. g = Suspended self ch rest \<and> w = w2) \<or>
     (g = Done \<and> w = w2 @ [method_request self ''close'' [PInt ch]]) \<Longrightarrow>
   snd (gen_step env Close g w) = (Done, w2 @ [method_request self ''close'' [PInt ch]])"
  by (auto simp: finally_close_def close_run split: sum.splits)

lemma five_components:
  "length (e::pyval list) = 5 \<Longrightarrow> \<exists>a b c d f. e = [a, b, c, d, f]"
  by (auto simp: eval_nat_numeral length_Suc_conv)

lemma event_step:
  assumes len: "length evt = 5" and side: "prepend_params self \<noteq> []"
  shows "receive_loop self ch (Event evt # rest) =
           (if spec_matches self ch evt then Yielded (spec_message evt) rest
            else receive_loop self ch rest)"
proof -
  from five_components [OF len] obtain a b c d f where e: "evt = [a, b, c, d, f]" by blast
  from side obtain s ss where p: "prepend_params self = s # ss" by (cases "prepend_params self") auto
  show ?thesis
    by (simp add: e p tuple_get_def ModemMixin_side_def spec_matches_def spec_message_def py_ne_def)
qed

lemma loop_filter:
  assumes side: "prepend_params self \<noteq> []"
  shows "\<forall>e\<in>set evs. length e = 5 \<Longrightarrow>
     receive_loop self ch (map Event evs) =
       (case dropWhile (\<lambda>e. \<not> spec_matches self ch e) evs of
          [] \<Rightarrow> Exhausted
        | e # post \<Rightarrow> Yielded (spec_message e) (map Event post))"
proof (induction evs)
  case Nil
  show ?case by simp
next
  case (Cons e evs)
  then have "length e = 5" and rest: "\<forall>e\<in>set evs. length e = 5" by simp_all
  from event_step [OF this(1) side] Cons.IH [OF rest] show ?case by simp
qed

lemma consume_next_done: "fst (consume env (replicate n Next) Done w) = replicate n Stopped"
  by (induction n) (auto split: prod.splits)

lemma messages_stopped: "messages (replicate n Stopped) = []"
  by (induction n) auto

lemma filter_dropWhile_nil: "dropWhile (\<lambda>e. \<not> P e) xs = [] \<Longrightarrow> filter P xs = []"
  by (induction xs) (auto split: if_splits)

lemma filter_dropWhile_cons:
  "dropWhile (\<lambda>e. \<not> P e) xs = y # ys \<Longrightarrow> filter P xs = y # filter P ys"
  by (induction xs) (auto split: if_splits)

lemma set_dropWhile_cons: "dropWhile Q xs = y # ys \<Longrightarrow> set ys \<subseteq> set xs"
  using set_dropWhileD [of _ Q xs] by auto

lemma consume_suspended_messages:
  assumes side: "prepend_params self \<noteq> []"
  shows "\<forall>e\<in>set evs. length e = 5 \<Longrightarrow>
     messages (fst (consume env (replicate n Next) (Suspended self ch (map Event evs)) w)) =
       take n (map spec_message (filter (spec_matches self ch) evs))"
proof (induction n arbitrary: evs w)
  case 0
  show ?case by simp
next
  case (Suc n)
  let ?M = "spec_matches self ch"
  show ?case
  proof (cases "dropWhile (\<lambda>e. \<not> ?M e) evs")
    case Nil
    with loop_filter [OF side Suc.prems, of ch]
    have ex: "receive_loop self ch (map Event evs) = Exhausted" by simp
    obtain r w' where f: "finally_close env self ch (Inr None :: error + ModemMessage option) w = (r, Done, w')"
      using finally_close_log [of env self ch "Inr None :: error + ModemMessage option" w]
      by (cases "finally_close env self ch (Inr None :: error + ModemMessage option) w") auto
    then have "r = Inr None \<or> (\<exists>e. r = Inl e)"
      by (auto simp: finally_close_def split: sum.splits prod.splits)
    then have "messages (outcome_of r # replicate n Stopped) = []"
      by (auto simp: messages_stopped)
    moreover have "fst (consume env (replicate (Suc n) Next) (Suspended self ch (map Event evs)) w)
        = outcome_of r # replicate n Stopped"
      using ex f consume_next_done [of env n w']
      by (auto simp: receive_try_def split: prod.splits)
    ultimately show ?thesis using filter_dropWhile_nil [OF Nil] by simp
  next
    case (Cons e post)
    with loop_filter [OF side Suc.prems, of ch]
    have y: "receive_loop self ch (map Event evs) = Yielded (spec_message e) (map Event post)"
      by simp
    from Cons Suc.prems have wf: "\<forall>e\<in>set post. length e = 5"
      using set_dropWhile_cons [OF Cons] by blast
    have "messages (fst (consume env (replicate (Suc n) Next) (Suspended self ch (map Event evs)) w))
        = spec_message e # messages (fst (consume env (replicate n Next) (Suspended self ch (map Event post)) w))"
      using y by (simp add: receive_try_def split: prod.splits)
    with Suc.IH [OF wf, of w] filter_dropWhile_cons [OF Cons] show ?thesis by simp
  qed
qed

lemma receive_try_extends:
  "\<exists>more. snd (snd (receive_try env self ch items w)) = w @ more"
  using receive_try_log [of env self ch items w]
  by (cases "receive_try env self ch items w") auto

lemma first_next_log:
  "\<exists>more. snd (snd (gen_next env (Created self ch) w)) =
     w @ method_request self ''isOpen'' [PInt ch] #
       (if fst (ModemMixin_isOpen env self ch w) = Inr False
        then method_request self ''open'' [PInt ch] # more else [])"
proof -
  let ?iq = "method_request self ''isOpen'' [PInt ch]"
  let ?oq = "method_request self ''open'' [PInt ch]"
  obtain r where io: "ModemMixin_isOpen env self ch w = (r, w @ [?iq])"
    by (simp add: isOpen_run)
  obtain r2 where oo: "ModemMixin_open env self ch (w @ [?iq]) = (r2, w @ [?iq, ?oq])"
    by (simp add: open_run)
  show ?thesis
  proof (cases r)
    case (Inl e)
    with io show ?thesis by simp
  next
    case (Inr b)
    show ?thesis
    proof (cases b)
      case True
      with io Inr show ?thesis by simp
    next
      case False
      show ?thesis
      proof (cases r2)
        case (Inl e)
        with io oo Inr False show ?thesis by simp
      next
        case (Inr u)
        from receive_try_extends [of env self ch "captureEvent env ''modem_message''" "w @ [?iq, ?oq]"]
        obtain more where "snd (snd (receive_try env self ch (captureEvent env ''modem_message'')
            (w @ [?iq, ?oq]))) = (w @ [?iq, ?oq]) @ more" by blast
        with io oo \<open>r = Inr b\<close> False Inr show ?thesis by simp
      qed
    qed
  qed
qed

lemma getTypeRemote_run:
  "CCWiredModem_getTypeRemote env self N w =
     ((case host env w (method_request self ''getTypeRemote'' [ser_encode N]) of
         Inl e \<Rightarrow> Inl e | Inr v \<Rightarrow> take_option_string v),
      w @ [method_request self ''getTypeRemote'' [ser_encode N]])"
  by (simp add: CCWiredModem_getTypeRemote_def bind_lift_run method_run)

lemma bind_run: "m w = (Inr x, w1) \<Longrightarrow> bind_io m f w = f x w1"
  by (simp add: bind_io_def)

lemma wrapRemote_some:
  "CCWiredModem_getTypeRemote env self N w = (Inr (Some K), w1) \<Longrightarrow>
   CCWiredModem_wrapRemote env tm self N w =
     ((case resolve tm K (lua_method_expr self)
              (prepend_params self @ [PBytes ''callRemote'', ser_encode N]) of
         Inl e \<Rightarrow> Inl e | Inr p \<Rightarrow> Inr (Some p)), w1)"
  by (simp add: CCWiredModem_wrapRemote_def bind_run bind_io_def lift_io_def return_io_def
      split: sum.splits)

lemma wrapRemote_none:
  "CCWiredModem_getTypeRemote env self N w = (Inr None, w1) \<Longrightarrow>
   CCWiredModem_wrapRemote env tm self N w = (Inr None, w1)"
  by (simp add: CCWiredModem_wrapRemote_def bind_run return_io_def)

lemma getType_run:
  "getType env side w =
     ((case host env w (getType_request side) of
         Inl e \<Rightarrow> Inl e | Inr v \<Rightarrow> take_option_string v),
      w @ [getType_request side])"
  by (simp add: getType_def bind_lift_run peripheral_method_def eval_lua_def Let_def
      getType_request_def)

lemma wrap_none:
  "getType env side w = (Inr None, w1) \<Longrightarrow> wrap env tm side w = (Inr None, w1)"
  by (simp add: wrap_def bind_run return_io_def)

lemma wrap_modem:
  "getType env side w = (Inr (Some ''modem''), w1) \<Longrightarrow>
   wrap env tm side w =
     ((case host env w1 (isWireless_request side) of
         Inl e \<Rightarrow> Inl e
       | Inr v \<Rightarrow>
           (case take_bool v of
              Inl e \<Rightarrow> Inl e
            | Inr b \<Rightarrow>
                Inr (Some (BasePeripheral_init (if b then CCWirelessModem else CCWiredModem)
                             ''peripheral.call'' [ser_encode side])))),
      w1 @ [isWireless_request side])"
  by (simp add: wrap_def bind_run Let_def bind_io_def lift_io_def return_io_def
      peripheral_method_def eval_lua_def isWireless_request_def split: sum.splits)

lemma wrap_other:
  "getType env side w = (Inr (Some K), w1) \<Longrightarrow> K \<noteq> ''modem'' \<Longrightarrow>
   wrap env tm side w =
     ((case resolve tm K ''peripheral.call'' [ser_encode side] of
         Inl e \<Rightarrow> Inl e | Inr p \<Rightarrow> Inr (Some p)), w1)"
  by (simp add: wrap_def bind_run Let_def bind_io_def lift_io_def return_io_def
      split: sum.splits)

lemma TYPE_MAP_unfold:
  "TYPE_MAP = map_of (rev (explicit_kinds @ map (\<lambda>k. (''minecraft:'' @ k, CCInventory)) inventory_kinds))"
  by (simp add: TYPE_MAP_def explicit_kinds_def inventory_kinds_def registerType_def fun_eq_iff)

section \<open>The channel subscription\<close>

text \<open>
  Claim C1, as stated, fails when the open-channel call is issued and raises: the call
  stands before the \<open>try\<close> block, so the exception leaves the generator without a
  close-channel call, and closing the finished generator issues none either.
\<close>

theorem receive_open_raises_counterexample:
  "ModemMixin_isOpen refusing_env left_modem 5 [] =
     (Inr False, [method_request left_modem ''isOpen'' [PInt 5]]) \<and>
   ModemMixin_open refusing_env left_modem 5 [method_request left_modem ''isOpen'' [PInt 5]] =
     (Inl (TransportError ''host unreachable''),
      [method_request left_modem ''isOpen'' [PInt 5],
       method_request left_modem ''open'' [PInt 5]]) \<and>
   consume refusing_env [Next, Close] (Created left_modem 5) [] =
     ([Failed (TransportError ''host unreachable''), Closed], Done,
      [method_request left_modem ''isOpen'' [PInt 5],
       method_request left_modem ''open'' [PInt 5]]) \<and>
   close_calls left_modem 5
     (snd (snd (consume refusing_env [Next, Close] (Created left_modem 5) []))) = 0"
  by code_simp

text \<open>
  Claim C1, amended. A subscription made by \<open>receive\<close> is reserved once its first
  advance found the channel free and its open-channel call returned. From then on,
  whatever the consumer does (advancing, throwing an exception into the generator,
  closing it) and whatever the capture delivers (messages, its end, an exception, an event
  that cannot be read): as long as every outcome so far handed over a message the
  generator is suspended and nothing has been issued since the open call; as soon as one
  outcome is anything else (the end of the capture, an exception, the consumer's close)
  the generator has finished and exactly the one close-channel request has been issued
  since the open call. Closing the generator, which is what abandoning it does, always
  ends in that state, so the log just after abandonment is the log just after the open
  call plus one close call.
\<close>

theorem receive_closes_exactly_once:
  assumes sub: "ModemMixin_receive self ch w0 = (Inr g0, w0)"
      and nb: "ModemMixin_isOpen env self ch w0 = (Inr False, w1)"
      and op: "ModemMixin_open env self ch w1 = (Inr (), w2)"
      and run: "consume env (Next # acts) g0 w0 = (outs, g, w)"
  shows "(if list_all is_got outs
          then (\<exists>rest. g = Suspended self ch rest) \<and> w = w2
          else g = Done \<and> w = w2 @ [method_request self ''close'' [PInt ch]]) \<and>
         snd (consume env (Next # acts @ [Close]) g0 w0) =
           (Done, w2 @ [method_request self ''close'' [PInt ch]]) \<and>
         close_calls self ch
           (drop (length w2) (snd (snd (consume env (Next # acts @ [Close]) g0 w0)))) = 1"
proof -
  let ?cl = "method_request self ''close'' [PInt ch]"
  from sub have g0: "g0 = Created self ch"
    by (simp add: ModemMixin_receive_def return_io_def)
  obtain r g1 w1' where t: "receive_try env self ch (captureEvent env ''modem_message'') w2 = (r, g1, w1')"
    by (cases "receive_try env self ch (captureEvent env ''modem_message'') w2")
  with first_next [OF nb op] have s: "gen_step env Next g0 w0 = (outcome_of r, g1, w1')"
    by (simp add: g0)
  obtain outs1 where c: "consume env acts g1 w1' = (outs1, g, w)"
    and o: "outs = outcome_of r # outs1"
    using run s by (auto split: prod.splits)
  have inv: "(list_all is_got outs \<and> (\<exists>rest. g = Suspended self ch rest) \<and> w = w2) \<or>
             (\<not> list_all is_got outs \<and> g = Done \<and> w = w2 @ [?cl])"
    using receive_try_ends [OF t]
  proof
    assume a1: "is_got (outcome_of r) \<and> (\<exists>rest. g1 = Suspended self ch rest) \<and> w1' = w2"
    then obtain rest where "g1 = Suspended self ch rest" "w1' = w2" by blast
    with c have "consume env acts (Suspended self ch rest) w2 = (outs1, g, w)" by simp
    from consume_suspended_ends [OF this] a1 o show ?thesis by auto
  next
    assume d: "\<not> is_got (outcome_of r) \<and> g1 = Done \<and> w1' = w2 @ [?cl]"
    with c consume_done [of env acts w1'] o show ?thesis by simp
  qed
  then have inv': "(\<exists>rest. g = Suspended self ch rest \<and> w = w2) \<or> (g = Done \<and> w = w2 @ [?cl])"
    by blast
  have "consume env ((Next # acts) @ [Close]) g0 w0 =
          (case consume env [Close] g w of (outs', g'', w'') \<Rightarrow> (outs @ outs', g'', w''))"
    by (simp only: consume_append run prod.case)
  then have "snd (consume env (Next # acts @ [Close]) g0 w0) = snd (gen_step env Close g w)"
    by (simp split: prod.splits)
  with close_step [OF inv'] have fin: "snd (consume env (Next # acts @ [Close]) g0 w0) = (Done, w2 @ [?cl])"
    by simp
  then have "close_calls self ch
      (drop (length w2) (snd (snd (consume env (Next # acts @ [Close]) g0 w0)))) = 1"
    by (simp add: close_calls_def)
  with inv fin show ?thesis by auto
qed

theorem receive_closes_exactly_once_witness:
  "ModemMixin_receive left_modem 5 [] = (Inr (Created left_modem 5), []) \<and>
   ModemMixin_isOpen lossy_env left_modem 5 [] =
     (Inr False, [method_request left_modem ''isOpen'' [PInt 5]]) \<and>
   ModemMixin_open lossy_env left_modem 5 [method_request left_modem ''isOpen'' [PInt 5]] =
     (Inr (), [method_request left_modem ''isOpen'' [PInt 5],
               method_request left_modem ''open'' [PInt 5]]) \<and>
   consume lossy_env [Next, Next] (Created left_modem 5) [] =
     ([Got \<lparr>reply_channel = PInt 7, content = PStr ''hello'', distance = PInt 12\<rparr>,
       Failed (TransportError ''link down'')], Done,
      [method_request left_modem ''isOpen'' [PInt 5],
       method_request left_modem ''open'' [PInt 5],
       method_request left_modem ''close'' [PInt 5]]) \<and>
   snd (consume lossy_env [Next, Next, Close] (Created left_modem 5) []) =
     (Done, [method_request left_modem ''isOpen'' [PInt 5],
             method_request left_modem ''open'' [PInt 5],
             method_request left_modem ''close'' [PInt 5]]) \<and>
   close_calls left_modem 5
     (drop 2 (snd (snd (consume lossy_env [Next, Next, Close] (Created left_modem 5) [])))) = 1"
proof -
  have h1: "ModemMixin_receive left_modem 5 [] = (Inr (Created left_modem 5), [])"
    by (simp add: ModemMixin_receive_def return_io_def)
  have h2: "ModemMixin_isOpen lossy_env left_modem 5 [] =
       (Inr False, [method_request left_modem ''isOpen'' [PInt 5]])"
    by code_simp
  have h3: "ModemMixin_open lossy_env left_modem 5 [method_request left_modem ''isOpen'' [PInt 5]] =
       (Inr (), [method_request left_modem ''isOpen'' [PInt 5],
                 method_request left_modem ''open'' [PInt 5]])"
    by code_simp
  have h4: "consume lossy_env (Next # [Next]) (Created left_modem 5) [] =
       ([Got \<lparr>reply_channel = PInt 7, content = PStr ''hello'', distance = PInt 12\<rparr>,
         Failed (TransportError ''link down'')], Done,
        [method_request left_modem ''isOpen'' [PInt 5],
         method_request left_modem ''open'' [PInt 5],
         method_request left_modem ''close'' [PInt 5]])"
    by code_simp
  have l: "length [method_request left_modem ''isOpen'' [PInt 5],
                   method_request left_modem ''open'' [PInt 5]] = 2"
    by simp
  note c0 = receive_closes_exactly_once [OF h1 h2 h3 h4, THEN conjunct2]
  then have c: "snd (consume lossy_env [Next, Next, Close] (Created left_modem 5) []) =
          (Done, [method_request left_modem ''isOpen'' [PInt 5],
                  method_request left_modem ''open'' [PInt 5],
                  method_request left_modem ''close'' [PInt 5]]) \<and>
        close_calls left_modem 5
          (drop 2 (snd (snd (consume lossy_env [Next, Next, Close] (Created left_modem 5) [])))) = 1"
    unfolding l append.simps .
  from h1 h2 h3 h4 c show ?thesis by blast
qed

text \<open>
  Claim C2. When the status query of the first advance reports the channel open, the
  subscription fails with the exception \<open>Channel is busy\<close>; the only request issued is
  the status query itself, there is no open-channel request, and nothing the consumer
  does afterwards issues any request.
\<close>

theorem receive_busy:
  assumes sub: "ModemMixin_receive self ch w = (Inr g, w)"
      and busy: "ModemMixin_isOpen env self ch w = (Inr True, w1)"
  shows "gen_next env g w = (Inl (Exception ''Channel is busy''), Done, w1) \<and>
         w1 = w @ [method_request self ''isOpen'' [PInt ch]] \<and>
         method_request self ''open'' [PInt ch] \<notin> set (drop (length w) w1) \<and>
         snd (consume env (Next # acts) g w) = (Done, w1)"
proof -
  from sub have g: "g = Created self ch"
    by (simp add: ModemMixin_receive_def return_io_def)
  from busy have w1: "w1 = w @ [method_request self ''isOpen'' [PInt ch]]"
    by (simp add: isOpen_run)
  have n: "gen_next env g w = (Inl (Exception ''Channel is busy''), Done, w1)"
    using busy by (simp add: g)
  have "method_request self ''open'' [PInt ch] \<noteq> method_request self ''isOpen'' [PInt ch]"
    by (simp add: method_request_def ser_encode_def)
  with n w1 consume_done [of env acts w1] show ?thesis
    by (auto split: prod.splits)
qed

theorem receive_busy_witness:
  "ModemMixin_receive left_modem 5 [method_request left_modem ''open'' [PInt 5]] =
     (Inr (Created left_modem 5), [method_request left_modem ''open'' [PInt 5]]) \<and>
   ModemMixin_isOpen sim_env left_modem 5 [method_request left_modem ''open'' [PInt 5]] =
     (Inr True, [method_request left_modem ''open'' [PInt 5],
                 method_request left_modem ''isOpen'' [PInt 5]]) \<and>
   gen_next sim_env (Created left_modem 5) [method_request left_modem ''open'' [PInt 5]] =
     (Inl (Exception ''Channel is busy''), Done,
      [method_request left_modem ''open'' [PInt 5],
       method_request left_modem ''isOpen'' [PInt 5]]) \<and>
   snd (consume sim_env [Next, Next, Close] (Created left_modem 5)
          [method_request left_modem ''open'' [PInt 5]]) =
     (Done, [method_request left_modem ''open'' [PInt 5],
             method_request left_modem ''isOpen'' [PInt 5]])"
proof -
  have h1: "ModemMixin_receive left_modem 5 [method_request left_modem ''open'' [PInt 5]] =
     (Inr (Created left_modem 5), [method_request left_modem ''open'' [PInt 5]])"
    by (simp add: ModemMixin_receive_def return_io_def)
  have h2: "ModemMixin_isOpen sim_env left_modem 5 [method_request left_modem ''open'' [PInt 5]] =
     (Inr True, [method_request left_modem ''open'' [PInt 5],
                 method_request left_modem ''isOpen'' [PInt 5]])"
    by code_simp
  from receive_busy [OF h1 h2, of "[Next, Close]"] h1 h2 show ?thesis
    by (simp only: simp_thms)
qed

text \<open>
  Claim C3. For a capture that delivers the events \<open>evs\<close>, each with the five components
  side, channel, reply channel, payload and distance, a reserved subscription of a proxy
  with a side yields to a consumer that advances \<open>n\<close> times the first \<open>n\<close> of the events
  whose side equals the proxy's side and whose channel equals the subscribed channel, in
  arrival order and nothing else, each as the message of its reply channel, payload and
  distance.
\<close>

theorem receive_yields_filtered:
  assumes sub: "ModemMixin_receive self ch w0 = (Inr g0, w0)"
      and nb: "ModemMixin_isOpen env self ch w0 = (Inr False, w1)"
      and op: "ModemMixin_open env self ch w1 = (Inr (), w2)"
      and side: "prepend_params self \<noteq> []"
      and cap: "captureEvent env ''modem_message'' = map Event evs"
      and wf: "\<forall>e\<in>set evs. length e = 5"
  shows "messages (fst (consume env (replicate n Next) g0 w0)) =
           take n (map spec_message (filter (spec_matches self ch) evs))"
proof (cases n)
  case 0
  then show ?thesis by simp
next
  case (Suc k)
  from sub have g0: "g0 = Created self ch"
    by (simp add: ModemMixin_receive_def return_io_def)
  have "consume env (replicate (Suc k) Next) (Created self ch) w0 =
          consume env (replicate (Suc k) Next) (Suspended self ch (map Event evs)) w2"
    using first_next [OF nb op] cap by simp
  with consume_suspended_messages [OF side wf, of env "Suc k" ch w2] show ?thesis
    by (simp only: g0 Suc)
qed

theorem receive_yields_filtered_witness:
  "ModemMixin_isOpen sim_env left_modem 5 [] =
     (Inr False, [method_request left_modem ''isOpen'' [PInt 5]]) \<and>
   captureEvent sim_env ''modem_message'' = map Event sample_events \<and>
   map length sample_events = [5, 5, 5, 5] \<and>
   messages (fst (consume sim_env (replicate 3 Next) (Created left_modem 5) [])) =
     [\<lparr>reply_channel = PInt 7, content = PStr ''hello'', distance = PInt 12\<rparr>,
      \<lparr>reply_channel = PInt 8, content = PList [PInt 1, PStr ''x''], distance = PFloat 2\<rparr>]"
proof -
  have h1: "ModemMixin_receive left_modem 5 [] = (Inr (Created left_modem 5), [])"
    by (simp add: ModemMixin_receive_def return_io_def)
  have h2: "ModemMixin_isOpen sim_env left_modem 5 [] =
       (Inr False, [method_request left_modem ''isOpen'' [PInt 5]])"
    by code_simp
  have h3: "ModemMixin_open sim_env left_modem 5 [method_request left_modem ''isOpen'' [PInt 5]] =
       (Inr (), [method_request left_modem ''isOpen'' [PInt 5],
                 method_request left_modem ''open'' [PInt 5]])"
    by code_simp
  have h4: "prepend_params left_modem \<noteq> []"
    by (simp add: left_modem_def BasePeripheral_init_def)
  have h5: "captureEvent sim_env ''modem_message'' = map Event sample_events"
    by (simp add: sim_env_def)
  have h6: "\<forall>e\<in>set sample_events. length e = 5"
    by (simp add: sample_events_def)
  have h7: "map length sample_events = [5, 5, 5, 5]"
    by (simp add: sample_events_def)
  have "messages (fst (consume sim_env (replicate 3 Next) (Created left_modem 5) [])) =
          take 3 (map spec_message (filter (spec_matches left_modem 5) sample_events))"
    by (rule receive_yields_filtered [OF h1 h2 h3 h4 h5 h6])
  also have "\<dots> =
     [\<lparr>reply_channel = PInt 7, content = PStr ''hello'', distance = PInt 12\<rparr>,
      \<lparr>reply_channel = PInt 8, content = PList [PInt 1, PStr ''x''], distance = PFloat 2\<rparr>]"
    by code_simp
  finally show ?thesis using h2 h5 h7 by (simp only: simp_thms)
qed

text \<open>
  Claim C9. Calling \<open>receive\<close> returns a generator that has not started and leaves the
  request log as it was; closing that generator without advancing it issues nothing. The
  first advance issues the status query as its first request, and the open-channel
  request next when the query reports the channel free.
\<close>

theorem receive_is_lazy:
  "ModemMixin_receive self ch w = (Inr (Created self ch), w) \<and>
   gen_close env (Created self ch) w = (Inr (), Done, w) \<and>
   (\<exists>more. snd (snd (gen_next env (Created self ch) w)) =
      w @ method_request self ''isOpen'' [PInt ch] # more) \<and>
   (ModemMixin_isOpen env self ch w = (Inr False, w1) \<longrightarrow>
      (\<exists>more. snd (snd (gen_next env (Created self ch) w)) =
         w @ method_request self ''isOpen'' [PInt ch]
           # method_request self ''open'' [PInt ch] # more))"
proof -
  from first_next_log [of env self ch w]
  have a: "\<exists>more. snd (snd (gen_next env (Created self ch) w)) =
      w @ method_request self ''isOpen'' [PInt ch] # more"
    by (auto split: if_splits)
  from first_next_log [of env self ch w]
  have b: "ModemMixin_isOpen env self ch w = (Inr False, w1) \<longrightarrow>
      (\<exists>more. snd (snd (gen_next env (Created self ch) w)) =
         w @ method_request self ''isOpen'' [PInt ch]
           # method_request self ''open'' [PInt ch] # more)"
    by (auto split: if_splits)
  from a b show ?thesis
    by (simp add: ModemMixin_receive_def return_io_def)
qed

theorem receive_is_lazy_witness:
  "ModemMixin_isOpen sim_env left_modem 5 [] =
     (Inr False, [method_request left_modem ''isOpen'' [PInt 5]]) \<and>
   ModemMixin_receive left_modem 5 [] = (Inr (Created left_modem 5), []) \<and>
   (\<exists>more. snd (snd (gen_next sim_env (Created left_modem 5) [])) =
      [] @ method_request left_modem ''isOpen'' [PInt 5]
        # method_request left_modem ''open'' [PInt 5] # more)"
proof -
  have h: "ModemMixin_isOpen sim_env left_modem 5 [] =
       (Inr False, [method_request left_modem ''isOpen'' [PInt 5]])"
    by code_simp
  from receive_is_lazy [of left_modem 5 "[]" sim_env "[method_request left_modem ''isOpen'' [PInt 5]]"] h
  show ?thesis by blast
qed

section \<open>Proxies, forwarding and discovery\<close>

text \<open>
  Claim C6. For a registered kind \<open>K\<close>, resolving \<open>K\<close> with a target expression and
  prepended arguments gives a proxy that holds both unchanged, and an operation on it
  issues exactly one request: the target expression wrapped as
  \<open>return <expr>(...)\<close>, and as arguments the prepended arguments, then the encoded
  method name, then the caller's arguments. Operations return a result and a log only,
  so the proxy is the same before and after. The modem operations are instances.
\<close>

theorem method_builds_one_request:
  assumes reg: "tm K = Some cls"
  shows "resolve tm K expr pre = Inr (BasePeripheral_init cls expr pre) \<and>
         lua_method_expr (BasePeripheral_init cls expr pre) = expr \<and>
         prepend_params (BasePeripheral_init cls expr pre) = pre \<and>
         snd (BasePeripheral_method env (BasePeripheral_init cls expr pre) name args w) =
           w @ [\<lparr>req_code = ''return '' @ expr @ ''(...)'',
                 req_params = pre @ [ser_encode name] @ args\<rparr>] \<and>
         snd (ModemMixin_isOpen env (BasePeripheral_init cls expr pre) ch w) =
           w @ [\<lparr>req_code = ''return '' @ expr @ ''(...)'',
                 req_params = pre @ [ser_encode ''isOpen''] @ [PInt ch]\<rparr>] \<and>
         snd (ModemMixin_open env (BasePeripheral_init cls expr pre) ch w) =
           w @ [\<lparr>req_code = ''return '' @ expr @ ''(...)'',
                 req_params = pre @ [ser_encode ''open''] @ [PInt ch]\<rparr>] \<and>
         snd (ModemMixin_close env (BasePeripheral_init cls expr pre) ch w) =
           w @ [\<lparr>req_code = ''return '' @ expr @ ''(...)'',
                 req_params = pre @ [ser_encode ''close''] @ [PInt ch]\<rparr>] \<and>
         snd (CCWiredModem_getTypeRemote env (BasePeripheral_init cls expr pre) N w) =
           w @ [\<lparr>req_code = ''return '' @ expr @ ''(...)'',
                 req_params = pre @ [ser_encode ''getTypeRemote''] @ [ser_encode N]\<rparr>]"
  using reg
  by (simp add: resolve_def BasePeripheral_init_def method_run isOpen_run open_run close_run
      getTypeRemote_run method_request_def)

theorem method_builds_one_request_witness:
  "TYPE_MAP ''monitor'' = Some CCMonitor \<and>
   resolve TYPE_MAP ''monitor'' ''peripheral.call'' [PBytes ''top''] =
     Inr (BasePeripheral_init CCMonitor ''peripheral.call'' [PBytes ''top'']) \<and>
   snd (BasePeripheral_method sim_env
          (BasePeripheral_init CCMonitor ''peripheral.call'' [PBytes ''top''])
          ''setTextScale'' [PInt 2] []) =
     [] @ [\<lparr>req_code = ''return '' @ ''peripheral.call'' @ ''(...)'',
            req_params = [PBytes ''top''] @ [ser_encode ''setTextScale''] @ [PInt 2]\<rparr>]"
proof -
  have h: "TYPE_MAP ''monitor'' = Some CCMonitor" by code_simp
  from method_builds_one_request [where tm = TYPE_MAP and K = "''monitor''" and cls = CCMonitor
      and expr = "''peripheral.call''" and pre = "[PBytes ''top'']" and env = sim_env
      and name = "''setTextScale''" and args = "[PInt 2]" and w = "[]", OF h] h
  show ?thesis by blast
qed

text \<open>
  Claim C4. When the far-side kind query of a wired modem proxy reports a registered
  kind, \<open>wrapRemote\<close> returns a proxy of the registered class with the same target
  expression and with the prepended arguments of the modem followed by the marker
  \<open>callRemote\<close> and the encoded far-side name; when the query reports no kind it
  returns \<open>None\<close>. The kind query is one request scoped to that name.
\<close>

theorem wrapRemote_composes:
  "(CCWiredModem_getTypeRemote env self N w = (Inr (Some K), w1) \<and> tm K = Some cls \<longrightarrow>
      CCWiredModem_wrapRemote env tm self N w =
        (Inr (Some \<lparr>pclass = cls, lua_method_expr = lua_method_expr self,
                    prepend_params = prepend_params self @ [PBytes ''callRemote'', ser_encode N]\<rparr>),
         w1)) \<and>
   (CCWiredModem_getTypeRemote env self N w = (Inr None, w1) \<longrightarrow>
      CCWiredModem_wrapRemote env tm self N w = (Inr None, w1)) \<and>
   snd (CCWiredModem_getTypeRemote env self N w) =
     w @ [method_request self ''getTypeRemote'' [ser_encode N]]"
  by (auto simp: wrapRemote_some wrapRemote_none resolve_def BasePeripheral_init_def
      getTypeRemote_run)

theorem wrapRemote_composes_witness:
  "CCWiredModem_getTypeRemote (kind_env (PStr ''minecraft:furnace'') PNone) back_modem
      ''furnace_0'' [] =
     (Inr (Some ''minecraft:furnace''),
      [method_request back_modem ''getTypeRemote'' [ser_encode ''furnace_0'']]) \<and>
   TYPE_MAP ''minecraft:furnace'' = Some CCInventory \<and>
   CCWiredModem_wrapRemote (kind_env (PStr ''minecraft:furnace'') PNone) TYPE_MAP back_modem
      ''furnace_0'' [] =
     (Inr (Some \<lparr>pclass = CCInventory, lua_method_expr = lua_method_expr back_modem,
                 prepend_params =
                   prepend_params back_modem @ [PBytes ''callRemote'', ser_encode ''furnace_0'']\<rparr>),
      [method_request back_modem ''getTypeRemote'' [ser_encode ''furnace_0'']]) \<and>
   CCWiredModem_getTypeRemote (kind_env PNone PNone) back_modem ''furnace_0'' [] =
     (Inr None, [method_request back_modem ''getTypeRemote'' [ser_encode ''furnace_0'']]) \<and>
   CCWiredModem_wrapRemote (kind_env PNone PNone) TYPE_MAP back_modem ''furnace_0'' [] =
     (Inr None, [method_request back_modem ''getTypeRemote'' [ser_encode ''furnace_0'']])"
proof -
  have h1: "CCWiredModem_getTypeRemote (kind_env (PStr ''minecraft:furnace'') PNone) back_modem
      ''furnace_0'' [] =
     (Inr (Some ''minecraft:furnace''),
      [method_request back_modem ''getTypeRemote'' [ser_encode ''furnace_0'']])"
    by code_simp
  have h2: "TYPE_MAP ''minecraft:furnace'' = Some CCInventory"
    by code_simp
  have h3: "CCWiredModem_getTypeRemote (kind_env PNone PNone) back_modem ''furnace_0'' [] =
     (Inr None, [method_request back_modem ''getTypeRemote'' [ser_encode ''furnace_0'']])"
    by code_simp
  from wrapRemote_composes [of "kind_env (PStr ''minecraft:furnace'') PNone" back_modem
      "''furnace_0''" "[]" "''minecraft:furnace''" _ TYPE_MAP CCInventory]
    wrapRemote_composes [of "kind_env PNone PNone" back_modem "''furnace_0''" "[]" _ _ TYPE_MAP]
    h1 h2 h3
  show ?thesis by blast
qed

text \<open>
  Claim C5. Discovery by \<open>wrap\<close>: the kind query is one request; when it reports no
  kind the result is \<open>None\<close>; when it reports \<open>modem\<close> exactly one more request is
  issued, the wireless check, the registry plays no part, and the result is the wireless
  class when the answer is true and the wired class when it is false; for any other
  kind the class is looked up in the registry.
\<close>

theorem wrap_protocol:
  "(getType env side w = (Inr None, w1) \<longrightarrow> wrap env tm side w = (Inr None, w1)) \<and>
   (getType env side w = (Inr (Some ''modem''), w1) \<longrightarrow>
      snd (wrap env tm side w) = w1 @ [isWireless_request side] \<and>
      wrap env tm side w = wrap env tm' side w \<and>
      (host env w1 (isWireless_request side) = Inr (PBool True) \<longrightarrow>
         fst (wrap env tm side w) =
           Inr (Some (BasePeripheral_init CCWirelessModem ''peripheral.call'' [ser_encode side]))) \<and>
      (host env w1 (isWireless_request side) = Inr (PBool False) \<longrightarrow>
         fst (wrap env tm side w) =
           Inr (Some (BasePeripheral_init CCWiredModem ''peripheral.call'' [ser_encode side])))) \<and>
   (getType env side w = (Inr (Some K), w1) \<and> K \<noteq> ''modem'' \<longrightarrow>
      wrap env tm side w =
        ((case tm K of
            None \<Rightarrow> Inl (KeyError K)
          | Some cls \<Rightarrow> Inr (Some (BasePeripheral_init cls ''peripheral.call'' [ser_encode side]))),
         w1)) \<and>
   snd (getType env side w) = w @ [getType_request side]"
  by (auto simp: wrap_none wrap_modem wrap_other resolve_def getType_run split: option.splits)

theorem wrap_protocol_witness:
  "getType (kind_env PNone PNone) ''left'' [] = (Inr None, [getType_request ''left'']) \<and>
   wrap (kind_env PNone PNone) TYPE_MAP ''left'' [] = (Inr None, [getType_request ''left'']) \<and>
   getType (kind_env (PStr ''modem'') (PBool True)) ''left'' [] =
     (Inr (Some ''modem''), [getType_request ''left'']) \<and>
   host (kind_env (PStr ''modem'') (PBool True)) [getType_request ''left'']
     (isWireless_request ''left'') = Inr (PBool True) \<and>
   wrap (kind_env (PStr ''modem'') (PBool True)) TYPE_MAP ''left'' [] =
     (Inr (Some (BasePeripheral_init CCWirelessModem ''peripheral.call'' [ser_encode ''left''])),
      [getType_request ''left'', isWireless_request ''left'']) \<and>
   getType (kind_env (PStr ''modem'') (PBool False)) ''left'' [] =
     (Inr (Some ''modem''), [getType_request ''left'']) \<and>
   host (kind_env (PStr ''modem'') (PBool False)) [getType_request ''left'']
     (isWireless_request ''left'') = Inr (PBool False) \<and>
   wrap (kind_env (PStr ''modem'') (PBool False)) TYPE_MAP ''left'' [] =
     (Inr (Some (BasePeripheral_init CCWiredModem ''peripheral.call'' [ser_encode ''left''])),
      [getType_request ''left'', isWireless_request ''left'']) \<and>
   getType (kind_env (PStr ''drive'') PNone) ''left'' [] =
     (Inr (Some ''drive''), [getType_request ''left'']) \<and>
   wrap (kind_env (PStr ''drive'') PNone) TYPE_MAP ''left'' [] =
     (Inr (Some (BasePeripheral_init CCDrive ''peripheral.call'' [ser_encode ''left''])),
      [getType_request ''left''])"
proof -
  have n: "getType (kind_env PNone PNone) ''left'' [] = (Inr None, [getType_request ''left''])"
    by code_simp
  have t: "getType (kind_env (PStr ''modem'') (PBool True)) ''left'' [] =
     (Inr (Some ''modem''), [getType_request ''left''])"
    by code_simp
  have tw: "host (kind_env (PStr ''modem'') (PBool True)) [getType_request ''left'']
     (isWireless_request ''left'') = Inr (PBool True)"
    by code_simp
  have f: "getType (kind_env (PStr ''modem'') (PBool False)) ''left'' [] =
     (Inr (Some ''modem''), [getType_request ''left''])"
    by code_simp
  have fw: "host (kind_env (PStr ''modem'') (PBool False)) [getType_request ''left'']
     (isWireless_request ''left'') = Inr (PBool False)"
    by code_simp
  have d: "getType (kind_env (PStr ''drive'') PNone) ''left'' [] =
     (Inr (Some ''drive''), [getType_request ''left''])"
    by code_simp
  have dk: "''drive'' \<noteq> ''modem''" by simp
  have dm: "TYPE_MAP ''drive'' = Some CCDrive" by code_simp
  from wrap_protocol [of "kind_env PNone PNone" "''left''" "[]" _ TYPE_MAP] n
  have c1: "wrap (kind_env PNone PNone) TYPE_MAP ''left'' [] = (Inr None, [getType_request ''left''])"
    by blast
  from wrap_protocol [of "kind_env (PStr ''modem'') (PBool True)" "''left''" "[]"
      "[getType_request ''left'']" TYPE_MAP] t tw
  have "snd (wrap (kind_env (PStr ''modem'') (PBool True)) TYPE_MAP ''left'' []) =
          [getType_request ''left''] @ [isWireless_request ''left''] \<and>
        fst (wrap (kind_env (PStr ''modem'') (PBool True)) TYPE_MAP ''left'' []) =
          Inr (Some (BasePeripheral_init CCWirelessModem ''peripheral.call'' [ser_encode ''left'']))"
    by blast
  then have c2: "wrap (kind_env (PStr ''modem'') (PBool True)) TYPE_MAP ''left'' [] =
     (Inr (Some (BasePeripheral_init CCWirelessModem ''peripheral.call'' [ser_encode ''left''])),
      [getType_request ''left'', isWireless_request ''left''])"
    by (simp add: prod_eq_iff)
  from wrap_protocol [of "kind_env (PStr ''modem'') (PBool False)" "''left''" "[]"
      "[getType_request ''left'']" TYPE_MAP] f fw
  have "snd (wrap (kind_env (PStr ''modem'') (PBool False)) TYPE_MAP ''left'' []) =
          [getType_request ''left''] @ [isWireless_request ''left''] \<and>
        fst (wrap (kind_env (PStr ''modem'') (PBool False)) TYPE_MAP ''left'' []) =
          Inr (Some (BasePeripheral_init CCWiredModem ''peripheral.call'' [ser_encode ''left'']))"
    by blast
  then have c3: "wrap (kind_env (PStr ''modem'') (PBool False)) TYPE_MAP ''left'' [] =
     (Inr (Some (BasePeripheral_init CCWiredModem ''peripheral.call'' [ser_encode ''left''])),
      [getType_request ''left'', isWireless_request ''left''])"
    by (simp add: prod_eq_iff)
  from wrap_protocol [of "kind_env (PStr ''drive'') PNone" "''left''" "[]"
      "[getType_request ''left'']" TYPE_MAP _ "''drive''"] d dk
  have "wrap (kind_env (PStr ''drive'') PNone) TYPE_MAP ''left'' [] =
        ((case TYPE_MAP ''drive'' of
            None \<Rightarrow> Inl (KeyError ''drive'')
          | Some cls \<Rightarrow> Inr (Some (BasePeripheral_init cls ''peripheral.call'' [ser_encode ''left'']))),
         [getType_request ''left''])"
    by blast
  then have c4: "wrap (kind_env (PStr ''drive'') PNone) TYPE_MAP ''left'' [] =
     (Inr (Some (BasePeripheral_init CCDrive ''peripheral.call'' [ser_encode ''left''])),
      [getType_request ''left''])"
    by (simp add: dm)
  from n t tw f fw d c1 c2 c3 c4 show ?thesis by blast
qed

text \<open>
  Claim C7, as stated, fails for the kind \<open>modem\<close> in discovery: the loaded registry has
  no constructor for it, a device of that kind is reported, and \<open>wrap\<close> returns a modem
  proxy instead of raising.
\<close>

theorem unknown_kind_counterexample:
  "getType (kind_env (PStr ''modem'') (PBool True)) ''left'' [] =
     (Inr (Some ''modem''), [getType_request ''left'']) \<and>
   TYPE_MAP ''modem'' = None \<and>
   wrap (kind_env (PStr ''modem'') (PBool True)) TYPE_MAP ''left'' [] =
     (Inr (Some (BasePeripheral_init CCWirelessModem ''peripheral.call'' [ser_encode ''left''])),
      [getType_request ''left'', isWireless_request ''left'']) \<and>
   fst (wrap (kind_env (PStr ''modem'') (PBool True)) TYPE_MAP ''left'' []) \<noteq>
     Inl (KeyError ''modem'')"
  by code_simp

text \<open>
  Claim C7, amended. For every reported kind other than \<open>modem\<close> with no registered
  constructor, \<open>wrap\<close> raises \<open>KeyError\<close> for that kind; for every reported kind with
  no registered constructor, \<open>modem\<close> included, \<open>wrapRemote\<close> raises \<open>KeyError\<close> for
  that kind. When no kind is reported both return \<open>None\<close>, a value and not an exception.
\<close>

theorem unknown_kind_amended:
  "(getType env side w = (Inr (Some K), w1) \<and> K \<noteq> ''modem'' \<and> tm K = None \<longrightarrow>
      wrap env tm side w = (Inl (KeyError K), w1)) \<and>
   (CCWiredModem_getTypeRemote env self N w = (Inr (Some K), w1) \<and> tm K = None \<longrightarrow>
      CCWiredModem_wrapRemote env tm self N w = (Inl (KeyError K), w1)) \<and>
   (getType env side w = (Inr None, w1) \<longrightarrow> wrap env tm side w = (Inr None, w1)) \<and>
   (CCWiredModem_getTypeRemote env self N w = (Inr None, w1) \<longrightarrow>
      CCWiredModem_wrapRemote env tm self N w = (Inr None, w1))"
  by (auto simp: wrap_none wrap_other wrapRemote_some wrapRemote_none resolve_def)

theorem unknown_kind_amended_witness:
  "getType (kind_env (PStr ''mystery'') PNone) ''left'' [] =
     (Inr (Some ''mystery''), [getType_request ''left'']) \<and>
   TYPE_MAP ''mystery'' = None \<and>
   wrap (kind_env (PStr ''mystery'') PNone) TYPE_MAP ''left'' [] =
     (Inl (KeyError ''mystery''), [getType_request ''left'']) \<and>
   CCWiredModem_getTypeRemote (kind_env (PStr ''mystery'') PNone) back_modem ''box_0'' [] =
     (Inr (Some ''mystery''), [method_request back_modem ''getTypeRemote'' [ser_encode ''box_0'']]) \<and>
   CCWiredModem_wrapRemote (kind_env (PStr ''mystery'') PNone) TYPE_MAP back_modem ''box_0'' [] =
     (Inl (KeyError ''mystery''), [method_request back_modem ''getTypeRemote'' [ser_encode ''box_0'']]) \<and>
   getType (kind_env PNone PNone) ''left'' [] = (Inr None, [getType_request ''left'']) \<and>
   wrap (kind_env PNone PNone) TYPE_MAP ''left'' [] = (Inr None, [getType_request ''left'']) \<and>
   CCWiredModem_getTypeRemote (kind_env PNone PNone) back_modem ''box_0'' [] =
     (Inr None, [method_request back_modem ''getTypeRemote'' [ser_encode ''box_0'']]) \<and>
   CCWiredModem_wrapRemote (kind_env PNone PNone) TYPE_MAP back_modem ''box_0'' [] =
     (Inr None, [method_request back_modem ''getTypeRemote'' [ser_encode ''box_0'']])"
proof -
  have a: "getType (kind_env (PStr ''mystery'') PNone) ''left'' [] =
     (Inr (Some ''mystery''), [getType_request ''left''])"
    by code_simp
  have b: "TYPE_MAP ''mystery'' = None" by code_simp
  have k: "''mystery'' \<noteq> ''modem''" by simp
  have c: "CCWiredModem_getTypeRemote (kind_env (PStr ''mystery'') PNone) back_modem ''box_0'' [] =
     (Inr (Some ''mystery''), [method_request back_modem ''getTypeRemote'' [ser_encode ''box_0'']])"
    by code_simp
  have d: "getType (kind_env PNone PNone) ''left'' [] = (Inr None, [getType_request ''left''])"
    by code_simp
  have e: "CCWiredModem_getTypeRemote (kind_env PNone PNone) back_modem ''box_0'' [] =
     (Inr None, [method_request back_modem ''getTypeRemote'' [ser_encode ''box_0'']])"
    by code_simp
  from unknown_kind_amended [of "kind_env (PStr ''mystery'') PNone" "''left''" "[]" "''mystery''"
      "[getType_request ''left'']" TYPE_MAP] a b k
  have c1: "wrap (kind_env (PStr ''mystery'') PNone) TYPE_MAP ''left'' [] =
     (Inl (KeyError ''mystery''), [getType_request ''left''])"
    by blast
  from unknown_kind_amended [of "kind_env (PStr ''mystery'') PNone" _ "[]" "''mystery''"
      "[method_request back_modem ''getTypeRemote'' [ser_encode ''box_0'']]" TYPE_MAP
      back_modem "''box_0''"] b c
  have c2: "CCWiredModem_wrapRemote (kind_env (PStr ''mystery'') PNone) TYPE_MAP back_modem
       ''box_0'' [] =
     (Inl (KeyError ''mystery''), [method_request back_modem ''getTypeRemote'' [ser_encode ''box_0'']])"
    by blast
  from unknown_kind_amended [of "kind_env PNone PNone" "''left''" "[]" _
      "[getType_request ''left'']" TYPE_MAP] d
  have c3: "wrap (kind_env PNone PNone) TYPE_MAP ''left'' [] = (Inr None, [getType_request ''left''])"
    by blast
  from unknown_kind_amended [of "kind_env PNone PNone" _ "[]" _
      "[method_request back_modem ''getTypeRemote'' [ser_encode ''box_0'']]" TYPE_MAP
      back_modem "''box_0''"] e
  have c4: "CCWiredModem_wrapRemote (kind_env PNone PNone) TYPE_MAP back_modem ''box_0'' [] =
     (Inr None, [method_request back_modem ''getTypeRemote'' [ser_encode ''box_0'']])"
    by blast
  from a b c d e c1 c2 c3 c4 show ?thesis by (intro conjI)
qed


section \<open>The registry\<close>

text \<open>
  Claim C8. Registration is an idempotent overwrite keyed by kind: after
  \<open>registerType K c1\<close> and then \<open>registerType K c2\<close>, the registry holds \<open>c2\<close> for
  \<open>K\<close> and resolving \<open>K\<close> instantiates \<open>c2\<close>; the first registration leaves no trace
  (one constructor per kind, the last one); registering the same constructor twice is
  the same as registering it once.
\<close>

theorem registerType_overwrites:
  "registerType (registerType tm K c1) K c2 K = Some c2 \<and>
   resolve (registerType (registerType tm K c1) K c2) K expr pre =
     Inr (BasePeripheral_init c2 expr pre) \<and>
   registerType (registerType tm K c1) K c2 = registerType tm K c2 \<and>
   registerType (registerType tm K c) K c = registerType tm K c"
  by (simp add: registerType_def resolve_def)

lemma TYPE_MAP_keys:
  "dom TYPE_MAP = fst ` set explicit_kinds \<union> (\<lambda>k. ''minecraft:'' @ k) ` set inventory_kinds"
  by (simp add: TYPE_MAP_unfold dom_map_of_conv_image_fst image_Un image_image Un_commute)

lemma kinds_distinct:
  "distinct (map fst explicit_kinds @ map (\<lambda>k. ''minecraft:'' @ k) inventory_kinds)"
  by (simp add: explicit_kinds_def inventory_kinds_def)

lemma TYPE_MAP_card: "card (dom TYPE_MAP) = 22"
proof -
  have "dom TYPE_MAP =
          set (map fst explicit_kinds @ map (\<lambda>k. ''minecraft:'' @ k) inventory_kinds)"
    by (simp add: TYPE_MAP_keys)
  then have "card (dom TYPE_MAP) =
          length (map fst explicit_kinds @ map (\<lambda>k. ''minecraft:'' @ k) inventory_kinds)"
    using distinct_card [OF kinds_distinct] by simp
  then show ?thesis by (simp add: explicit_kinds_def inventory_kinds_def)
qed

lemma TYPE_MAP_inventory:
  "\<forall>k\<in>set inventory_kinds. TYPE_MAP (''minecraft:'' @ k) = Some CCInventory"
  by (simp add: TYPE_MAP_unfold explicit_kinds_def inventory_kinds_def)

lemma TYPE_MAP_explicit: "\<forall>(k, c)\<in>set explicit_kinds. TYPE_MAP k = Some c"
  by (simp add: TYPE_MAP_unfold explicit_kinds_def inventory_kinds_def)

lemma TYPE_MAP_modem: "TYPE_MAP ''modem'' = None"
  by (simp add: TYPE_MAP_unfold explicit_kinds_def inventory_kinds_def)

text \<open>
  Claim C10. After loading, the registry holds exactly the twelve explicitly registered
  kinds, each with its class, and the ten \<open>minecraft:\<close> inventory kinds, each with the
  inventory class: twenty-two keys, \<open>modem\<close> not among them. So \<open>wrapRemote\<close> to a
  far-side device that reports the kind \<open>modem\<close> raises \<open>KeyError\<close> and builds no
  proxy.
\<close>

theorem builtin_registry:
  "dom TYPE_MAP = fst ` set explicit_kinds \<union> (\<lambda>k. ''minecraft:'' @ k) ` set inventory_kinds \<and>
   length explicit_kinds = 12 \<and> length inventory_kinds = 10 \<and> card (dom TYPE_MAP) = 22 \<and>
   (\<forall>(k, c)\<in>set explicit_kinds. TYPE_MAP k = Some c) \<and>
   (\<forall>k\<in>set inventory_kinds. TYPE_MAP (''minecraft:'' @ k) = Some CCInventory) \<and>
   ''modem'' \<notin> dom TYPE_MAP \<and>
   (CCWiredModem_getTypeRemote env self N w = (Inr (Some ''modem''), w1) \<longrightarrow>
      CCWiredModem_wrapRemote env TYPE_MAP self N w = (Inl (KeyError ''modem''), w1))"
proof -
  have l: "length explicit_kinds = 12" "length inventory_kinds = 10"
    by (simp_all add: explicit_kinds_def inventory_kinds_def)
  have m: "''modem'' \<notin> dom TYPE_MAP"
    using TYPE_MAP_modem by (simp add: domIff)
  have r: "CCWiredModem_getTypeRemote env self N w = (Inr (Some ''modem''), w1) \<longrightarrow>
      CCWiredModem_wrapRemote env TYPE_MAP self N w = (Inl (KeyError ''modem''), w1)"
    by (simp add: wrapRemote_some resolve_def TYPE_MAP_modem)
  from TYPE_MAP_keys l TYPE_MAP_card TYPE_MAP_explicit TYPE_MAP_inventory m r
  show ?thesis by blast
qed

theorem builtin_registry_witness:
  "''chest'' \<in> set inventory_kinds \<and> TYPE_MAP (''minecraft:'' @ ''chest'') = Some CCInventory \<and>
   (''printer'', CCPrinter) \<in> set explicit_kinds \<and> TYPE_MAP ''printer'' = Some CCPrinter \<and>
   CCWiredModem_getTypeRemote (kind_env (PStr ''modem'') (PBool False)) back_modem ''modem_1'' [] =
     (Inr (Some ''modem''), [method_request back_modem ''getTypeRemote'' [ser_encode ''modem_1'']]) \<and>
   CCWiredModem_wrapRemote (kind_env (PStr ''modem'') (PBool False)) TYPE_MAP back_modem
       ''modem_1'' [] =
     (Inl (KeyError ''modem''), [method_request back_modem ''getTypeRemote'' [ser_encode ''modem_1'']])"
proof -
  have a: "''chest'' \<in> set inventory_kinds" by (simp add: inventory_kinds_def)
  have b: "(''printer'', CCPrinter) \<in> set explicit_kinds" by (simp add: explicit_kinds_def)
  have c: "CCWiredModem_getTypeRemote (kind_env (PStr ''modem'') (PBool False)) back_modem
       ''modem_1'' [] =
     (Inr (Some ''modem''), [method_request back_modem ''getTypeRemote'' [ser_encode ''modem_1'']])"
    by code_simp
  from builtin_registry [of "kind_env (PStr ''modem'') (PBool False)" back_modem "''modem_1''" "[]"
      "[method_request back_modem ''getTypeRemote'' [ser_encode ''modem_1'']]"] a b c
  show ?thesis by blast
qed

end
